theory Spec2Isabelle
  imports Complex_Main "HOL-Library.Sublist"
begin

section \<open>Data model (types.ts)\<close>

text \<open>
  The status of a device is the string union \<open>'connected' | 'busy' | 'offline'\<close>, the
  source and the type of a log entry are string unions too, and \<open>ScriptCommand\<close> is a
  string enum. Optional fields (\<open>currentApp?\<close>, \<open>lastScreenshot?\<close>) are options.
  The field \<open>id\<close> of a device and of a log entry is written \<open>dev_id\<close> and \<open>log_id\<close>,
  and the field \<open>type\<close> of a log entry \<open>entry_type\<close>.
\<close>

datatype device_status = Connected | Busy | Offline

record IOSDevice =
  dev_id :: string
  name :: string
  model :: string
  osVersion :: string
  ip :: string
  status :: device_status
  batteryLevel :: int
  currentApp :: "string option"
  lastScreenshot :: "string option"

datatype log_source = User | AI | System

datatype log_type = Info | Success | Error | Command

record LogEntry =
  log_id :: string
  timestamp :: nat
  source :: log_source
  message :: string
  entry_type :: log_type

datatype ScriptCommand =
  URL | LAUNCH | KILL | INSTALL | UNINSTALL | SCREENSHOT | HOME | RESTART | APPS | TEXT | QUIT

text \<open>The string value of each member of the enum, as interpolated into messages.\<close>

fun command_value :: "ScriptCommand \<Rightarrow> string" where
  "command_value URL = ''url''"
| "command_value LAUNCH = ''launch''"
| "command_value KILL = ''kill''"
| "command_value INSTALL = ''install''"
| "command_value UNINSTALL = ''uninstall''"
| "command_value SCREENSHOT = ''screenshot''"
| "command_value HOME = ''home''"
| "command_value RESTART = ''restart''"
| "command_value APPS = ''apps''"
| "command_value TEXT = ''text''"
| "command_value QUIT = ''quit''"

section \<open>The runtime and the component state\<close>

text \<open>
  What the JavaScript runtime and React supply is a parameter: the successive results of
  \<open>Math.random()\<close>, the successive readings of \<open>new Date()\<close> (milliseconds), the
  conversion of a number to a string in a radix, the product of two numbers as the runtime
  rounds it, and whether React runs the updater passed to \<open>setDevices\<close> at the call (it
  does when no update of the component is pending) or at the next render. The counter
  \<open>tick\<close> of the state says how many readings have been taken.

  The state of the component is the pair of React state cells \<open>devices\<close> and \<open>logs\<close>.
  A state updater \<open>setX(prev => f prev)\<close> is the function \<open>f\<close> applied to the cell.
\<close>

record runtime =
  math_random :: "nat \<Rightarrow> real"
  date_now :: "nat \<Rightarrow> nat"
  number_toString :: "nat \<Rightarrow> real \<Rightarrow> string"
  number_times :: "real \<Rightarrow> real \<Rightarrow> real"
  updater_at_call :: bool

record app_state =
  devices :: "IOSDevice list"
  logs :: "LogEntry list"
  tick :: nat

subsection \<open>String helpers\<close>

text \<open>\<open>xs.join(sep)\<close>\<close>

fun join :: "string \<Rightarrow> string list \<Rightarrow> string" where
  "join sep [] = []"
| "join sep [x] = x"
| "join sep (x # y # ys) = x @ sep @ join sep (y # ys)"

text \<open>The decimal rendering of a length in a template string.\<close>

function show_nat :: "nat \<Rightarrow> string" where
  "show_nat n =
     (if n < 10 then [''0123456789'' ! n]
      else show_nat (n div 10) @ [''0123456789'' ! (n mod 10)])"
  by pat_completeness auto
termination
  by (relation "measure (\<lambda>n. n)") auto

declare show_nat.simps [simp del]

text \<open>\<open>argument || dflt\<close>: \<open>undefined\<close> and the empty string are both falsy.\<close>

definition or_default :: "string option \<Rightarrow> string \<Rightarrow> string" where
  "or_default argument dflt =
     (case argument of None \<Rightarrow> dflt | Some a \<Rightarrow> if a = [] then dflt else a)"

section \<open>The activity log: \<open>addLog\<close>\<close>

definition addLog :: "runtime \<Rightarrow> log_source \<Rightarrow> string \<Rightarrow> log_type \<Rightarrow> app_state \<Rightarrow> app_state" where
  "addLog rt src msg ty s =
     s\<lparr>logs := logs s @
          [\<lparr>log_id = drop 7 (number_toString rt 36 (math_random rt (tick s))),
            timestamp = date_now rt (tick s),
            source = src, message = msg, entry_type = ty\<rparr>],
       tick := Suc (tick s)\<rparr>"

text \<open>
  A call of \<open>addLog\<close> that is made while an updater runs, kept with its arguments, and
  the calls of a list made in order.
\<close>

type_synonym log_call = "log_source \<times> string \<times> log_type"

fun run_log_calls :: "runtime \<Rightarrow> log_call list \<Rightarrow> app_state \<Rightarrow> app_state" where
  "run_log_calls rt [] s = s"
| "run_log_calls rt ((src, msg, ty) # calls) s = run_log_calls rt calls (addLog rt src msg ty s)"

section \<open>The command dispatcher: \<open>handleScriptExecution\<close>\<close>

text \<open>
  \<open>handleScriptExecution\<close> reads \<open>devices\<close>, the constant bound in the render in which the
  handler was created; it is the argument \<open>devs\<close> here. The updaters passed to
  \<open>setDevices\<close> work on the current cell, \<open>devices s\<close>.
\<close>

definition resolve_targets :: "IOSDevice list \<Rightarrow> string list \<Rightarrow> IOSDevice list" where
  "resolve_targets devs targetDevices =
     (let isAll = ''all'' \<in> set targetDevices
      in if isAll then filter (\<lambda>d. status d \<noteq> Offline) devs
         else filter (\<lambda>d. dev_id d \<in> set targetDevices \<and> status d \<noteq> Offline) devs)"

text \<open>\<open>targets.find(t => t.id === d.id)\<close>, used as a condition.\<close>

definition is_target :: "IOSDevice list \<Rightarrow> IOSDevice \<Rightarrow> bool" where
  "is_target targets d = (find (\<lambda>t. dev_id t = dev_id d) targets \<noteq> None)"

text \<open>The first updater: every device matching a target becomes busy.\<close>

definition set_busy :: "IOSDevice list \<Rightarrow> IOSDevice list \<Rightarrow> IOSDevice list" where
  "set_busy targets prev = map (\<lambda>d. if is_target targets d then d\<lparr>status := Busy\<rparr> else d) prev"

text \<open>
  The body of the second updater for one matching device: \<open>updates\<close> starts as
  \<open>{status: 'connected'}\<close>, the switch over the action extends it, and the result is
  \<open>{...d, ...updates}\<close>. The screenshot case reads \<open>Math.random()\<close>; the text case calls
  \<open>addLog\<close>, and the call is the third component of the result.
\<close>

fun apply_command ::
  "runtime \<Rightarrow> ScriptCommand \<Rightarrow> string option \<Rightarrow> IOSDevice \<Rightarrow> app_state
     \<Rightarrow> IOSDevice \<times> app_state \<times> log_call list" where
  "apply_command rt URL argument d s =
     (d\<lparr>status := Connected, currentApp := Some ''Safari''\<rparr>, s, [])"
| "apply_command rt LAUNCH argument d s =
     (d\<lparr>status := Connected, currentApp := Some (or_default argument ''App'')\<rparr>, s, [])"
| "apply_command rt KILL argument d s =
     (d\<lparr>status := Connected, currentApp := Some ''SpringBoard''\<rparr>, s, [])"
| "apply_command rt HOME argument d s =
     (d\<lparr>status := Connected, currentApp := Some ''SpringBoard''\<rparr>, s, [])"
| "apply_command rt RESTART argument d s =
     (d\<lparr>status := Offline\<rparr>, s, [])"
| "apply_command rt SCREENSHOT argument d s =
     (d\<lparr>status := Connected,
        lastScreenshot := Some (''https://picsum.photos/seed/''
           @ number_toString rt 10 (math_random rt (tick s)) @ ''/360/640'')\<rparr>,
      s\<lparr>tick := Suc (tick s)\<rparr>, [])"
| "apply_command rt TEXT argument d s =
     (d\<lparr>status := Connected\<rparr>, s, [(System, ''Typed text on '' @ name d, Success)])"
| "apply_command rt INSTALL argument d s = (d\<lparr>status := Connected\<rparr>, s, [])"
| "apply_command rt UNINSTALL argument d s = (d\<lparr>status := Connected\<rparr>, s, [])"
| "apply_command rt APPS argument d s = (d\<lparr>status := Connected\<rparr>, s, [])"
| "apply_command rt QUIT argument d s = (d\<lparr>status := Connected\<rparr>, s, [])"

text \<open>
  The second updater: \<open>prev.map\<close> over the cell, in order. The result is the new cell, the
  state with the readings of \<open>Math.random()\<close> counted, and the calls of \<open>addLog\<close> that the
  updater makes, in order.
\<close>

fun settle_devices ::
  "runtime \<Rightarrow> IOSDevice list \<Rightarrow> ScriptCommand \<Rightarrow> string option \<Rightarrow> IOSDevice list \<Rightarrow> app_state
     \<Rightarrow> IOSDevice list \<times> app_state \<times> log_call list" where
  "settle_devices rt targets action argument [] s = ([], s, [])"
| "settle_devices rt targets action argument (d # ds) s =
     (if is_target targets d then
        (let (d', s1, calls1) = apply_command rt action argument d s;
             (ds', s2, calls2) = settle_devices rt targets action argument ds s1
         in (d' # ds', s2, calls1 @ calls2))
      else
        (let (ds', s2, calls2) = settle_devices rt targets action argument ds s
         in (d # ds', s2, calls2)))"

text \<open>
  The handler up to its \<open>await\<close>: either it returns at once (no target, \<open>Inl\<close>), or it
  has logged the command and set the targets busy, and waits (\<open>Inr\<close>, with the values of
  \<open>targets\<close> and \<open>deviceNames\<close> it keeps).
\<close>

definition handleScriptExecution_begin ::
  "runtime \<Rightarrow> IOSDevice list \<Rightarrow> ScriptCommand \<Rightarrow> string option \<Rightarrow> string list \<Rightarrow> app_state
     \<Rightarrow> (string \<times> app_state) + (IOSDevice list \<times> string \<times> app_state)" where
  "handleScriptExecution_begin rt devs action argument targetDevices s =
     (let targets = resolve_targets devs targetDevices
      in if length targets = 0 then
           Inl (''Error: No online devices found for the command.'',
                addLog rt System (''No valid targets found for action: '' @ command_value action)
                  Error s)
         else
           (let deviceNames = join '', '' (map name targets);
                s1 = addLog rt System
                       (''Executing: ./connect_ios_wireless.sh '' @ command_value action @ '' ''
                          @ or_default argument [] @ '' on ['' @ deviceNames @ '']'')
                       Command s;
                s2 = s1\<lparr>devices := set_busy targets (devices s1)\<rparr>
            in Inr (targets, deviceNames, s2)))"

text \<open>The state in which the handler leaves the component when it returns or starts to wait.\<close>

definition state_after_begin ::
  "runtime \<Rightarrow> IOSDevice list \<Rightarrow> ScriptCommand \<Rightarrow> string option \<Rightarrow> string list \<Rightarrow> app_state
     \<Rightarrow> app_state" where
  "state_after_begin rt devs action argument targetDevices s =
     (case handleScriptExecution_begin rt devs action argument targetDevices s of
        Inl (result, s1) \<Rightarrow> s1
      | Inr (targets, deviceNames, s2) \<Rightarrow> s2)"

text \<open>
  The handler after the delay of 1500 ms: it passes the second updater to \<open>setDevices\<close>
  and then calls \<open>addLog\<close> with the success message. When React runs the updater at the
  call, the entries that the updater logs come before the success entry; when it runs the
  updater at the next render, they come after it.
\<close>

definition handleScriptExecution_resume ::
  "runtime \<Rightarrow> ScriptCommand \<Rightarrow> string option \<Rightarrow> IOSDevice list \<Rightarrow> string \<Rightarrow> app_state
     \<Rightarrow> string \<times> app_state" where
  "handleScriptExecution_resume rt action argument targets deviceNames s =
     (let (ds, s3, calls) = settle_devices rt targets action argument (devices s) s;
          s4 = s3\<lparr>devices := ds\<rparr>;
          success = ''Successfully executed '' @ command_value action @ '' on ''
                      @ show_nat (length targets) @ '' devices.'';
          s5 = (if updater_at_call rt
                then addLog rt System success Success (run_log_calls rt calls s4)
                else run_log_calls rt calls (addLog rt System success Success s4))
      in (''Command '' @ command_value action @ '' executed successfully on '' @ deviceNames @ ''.'',
          s5))"

text \<open>A whole run of the handler, nothing else touching the state during the delay.\<close>

definition handleScriptExecution ::
  "runtime \<Rightarrow> IOSDevice list \<Rightarrow> ScriptCommand \<Rightarrow> string option \<Rightarrow> string list \<Rightarrow> app_state
     \<Rightarrow> string \<times> app_state" where
  "handleScriptExecution rt devs action argument targetDevices s =
     (case handleScriptExecution_begin rt devs action argument targetDevices s of
        Inl r \<Rightarrow> r
      | Inr (targets, deviceNames, s2) \<Rightarrow>
          handleScriptExecution_resume rt action argument targets deviceNames s2)"

text \<open>
  A call made from the current render, as the quick-action buttons make it: the handler
  created in that render reads the current cell.
\<close>

definition dispatch ::
  "runtime \<Rightarrow> ScriptCommand \<Rightarrow> string option \<Rightarrow> string list \<Rightarrow> app_state \<Rightarrow> string \<times> app_state" where
  "dispatch rt action argument targetDevices s =
     handleScriptExecution rt (devices s) action argument targetDevices s"

section \<open>The session controller: the tool calls of \<open>onmessage\<close>\<close>

text \<open>
  A function call of an inbound message. Its \<open>args\<close> are untyped in the source; the
  fields read are \<open>action\<close>, \<open>argument\<close> (optional) and \<open>targetDevices\<close>, which is
  \<open>None\<close> when absent (\<open>null\<close> or \<open>undefined\<close>).
\<close>

record tool_args =
  arg_action :: ScriptCommand
  arg_argument :: "string option"
  arg_targetDevices :: "string list option"

record FunctionCall =
  fc_id :: string
  fc_name :: string
  fc_args :: tool_args

record FunctionResponse =
  fr_id :: string
  fr_name :: string
  fr_result :: string

text \<open>
  The loop over \<open>msg.toolCall.functionCalls\<close>. The callback was created in the render in
  which the session was opened, so every call of the session runs the handler of that
  render, with the \<open>devices\<close> of that render: the argument \<open>devs\<close>, the same at each
  iteration. \<open>args.targetDevices || ['all']\<close> replaces an absent list only: an array, even
  an empty one, is truthy.
\<close>

fun handle_tool_calls ::
  "runtime \<Rightarrow> IOSDevice list \<Rightarrow> FunctionCall list \<Rightarrow> app_state
     \<Rightarrow> FunctionResponse list \<times> app_state" where
  "handle_tool_calls rt devs [] s = ([], s)"
| "handle_tool_calls rt devs (fc # fcs) s =
     (let s1 = addLog rt AI (''Identified Intent: '' @ fc_name fc) Info s;
          (result, s2) =
            (if fc_name fc = ''execute_ios_script'' then
               (let args = fc_args fc
                in handleScriptExecution rt devs (arg_action args) (arg_argument args)
                     (case arg_targetDevices args of None \<Rightarrow> [''all''] | Some tds \<Rightarrow> tds) s1)
             else (''Error executing command.'', s1));
          (responses, s3) = handle_tool_calls rt devs fcs s2
      in (\<lparr>fr_id = fc_id fc, fr_name = fc_name fc, fr_result = result\<rparr> # responses, s3))"

section \<open>The audio bridge: scheduling of inbound chunks\<close>

text \<open>
  The cursor is \<open>nextStartTimeRef.current\<close>. For one chunk the handler sets the cursor to
  \<open>Math.max(cursor, ctx.currentTime)\<close>, starts the decoded buffer at the cursor and adds
  the duration of the buffer to the cursor. The result is the start time and the new
  cursor. Times are JavaScript numbers; the functions are written for any ordered type
  with an addition.
\<close>

definition schedule_chunk :: "'a::{linorder, plus} \<Rightarrow> 'a \<Rightarrow> 'a \<Rightarrow> 'a \<times> 'a" where
  "schedule_chunk currentTime duration nextStartTime =
     (let start = max nextStartTime currentTime in (start, start + duration))"

text \<open>
  A sequence of chunks handled in arrival order, each given as the clock reading at its
  arrival and the duration of its buffer: the start times, and the final cursor.
\<close>

fun schedule_chunks :: "('a::{linorder, plus} \<times> 'a) list \<Rightarrow> 'a \<Rightarrow> 'a list \<times> 'a" where
  "schedule_chunks [] nextStartTime = ([], nextStartTime)"
| "schedule_chunks ((currentTime, duration) # rest) nextStartTime =
     (let (start, n1) = schedule_chunk currentTime duration nextStartTime;
          (starts, n2) = schedule_chunks rest n1
      in (start # starts, n2))"

section \<open>The device configuration: \<open>parseConfig\<close>\<close>

text \<open>
  A character is a code unit from 0 to 255. \<open>trim\<close> removes at both ends the white space
  and the line terminators of JavaScript in that range: tab, line feed, vertical tab, form
  feed, carriage return, space and the no-break space \<open>0xA0\<close>. \<open>toLowerCase\<close> maps the
  capital letters of that range, \<open>A\<close> to \<open>Z\<close> and \<open>0xC0\<close> to \<open>0xDE\<close> without the
  multiplication sign \<open>0xD7\<close>, to the letters 32 places further.
\<close>

definition is_space :: "char \<Rightarrow> bool" where
  "is_space c =
     (c \<in> set [CHR 0x09, CHR 0x0A, CHR 0x0B, CHR 0x0C, CHR 0x0D, CHR '' '', CHR 0xA0])"

definition trim :: "string \<Rightarrow> string" where
  "trim s = rev (dropWhile is_space (rev (dropWhile is_space s)))"

text \<open>\<open>s.split(c)\<close> for a separator of one character; never empty.\<close>

fun split :: "char \<Rightarrow> string \<Rightarrow> string list" where
  "split c [] = [Nil]"
| "split c (x # xs) =
     (if x = c then [] # split c xs
      else (case split c xs of [] \<Rightarrow> [x # Nil] | w # ws \<Rightarrow> (x # w) # ws))"

definition startsWith :: "string \<Rightarrow> string \<Rightarrow> bool" where
  "startsWith s p = (take (length p) s = p)"

fun includes_str :: "string \<Rightarrow> string \<Rightarrow> bool" where
  "includes_str [] sub = (sub = [])"
| "includes_str (c # cs) sub = (startsWith (c # cs) sub \<or> includes_str cs sub)"

definition toLowerCase :: "string \<Rightarrow> string" where
  "toLowerCase s =
     map (\<lambda>c. let n = (of_char c :: nat)
              in if (of_char CHR ''A'' \<le> n \<and> n \<le> of_char CHR ''Z'')
                    \<or> (of_char CHR 0xC0 \<le> n \<and> n \<le> of_char CHR 0xDE \<and> c \<noteq> CHR 0xD7)
                 then char_of (n + 32) else c) s"

text \<open>The heuristic that picks the model and the OS from the name.\<close>

definition infer_model_os :: "string \<Rightarrow> string \<times> string" where
  "infer_model_os nm =
     (if includes_str (toLowerCase nm) ''iphone'' then
        ((if includes_str nm ''16'' then ''iPhone 15 Pro''
          else if includes_str nm ''17'' then ''iPhone 16 Pro Max''
          else ''iPhone''), ''iOS 17.0'')
      else if includes_str (toLowerCase nm) ''ipad'' then (''iPad Air'', ''iPadOS 17.0'')
      else (''Unknown Device'', ''iOS 17.0''))"

text \<open>
  The body of \<open>lines.forEach\<close>: \<open>parsedDevices\<close> is the array being filled, \<open>k\<close> counts
  the readings of \<open>Math.random()\<close>. The battery level is \<open>Math.floor(Math.random() * 40) + 60\<close>,
  with the product as the runtime rounds it.
\<close>

fun parse_lines ::
  "runtime \<Rightarrow> string list \<Rightarrow> IOSDevice list \<Rightarrow> nat \<Rightarrow> IOSDevice list \<times> nat" where
  "parse_lines rt [] parsedDevices k = (parsedDevices, k)"
| "parse_lines rt (line # rest) parsedDevices k =
     (let trimmed = trim line
      in if trimmed = [] \<or> startsWith trimmed ''#'' then parse_lines rt rest parsedDevices k
         else
           (let parts = map trim (split CHR '','' trimmed)
            in if length parts \<ge> 3 then
                 (let nm = parts ! 0; udid = parts ! 1; host = parts ! 2;
                      (mdl, os) = infer_model_os nm
                  in parse_lines rt rest
                       (parsedDevices @
                          [\<lparr>dev_id = udid, name = nm, model = mdl, osVersion = os, ip = host,
                            status = Connected,
                            batteryLevel = \<lfloor>number_times rt (math_random rt k) 40\<rfloor> + 60,
                            currentApp = Some ''SpringBoard'',
                            lastScreenshot = None\<rparr>])
                       (Suc k))
               else parse_lines rt rest parsedDevices k))"

text \<open>
  \<open>parseConfig\<close>. The body of its \<open>try\<close> ends normally with a new state (\<open>Inr\<close>) or
  throws (\<open>Inl\<close>); the \<open>catch\<close> branch logs the failure on the state before the call. The
  body splits and trims strings, fills an array and calls \<open>setDevices\<close> and \<open>addLog\<close>;
  none of these throws, so the body has no \<open>Inl\<close> result.
\<close>

datatype exception = Thrown string

definition parseConfig_try :: "runtime \<Rightarrow> string \<Rightarrow> app_state \<Rightarrow> exception + app_state" where
  "parseConfig_try rt content s =
     (let lines = split CHR 0x0A content;
          (parsedDevices, k) = parse_lines rt lines [] (tick s);
          s1 = s\<lparr>devices := parsedDevices, tick := k\<rparr>
      in Inr (addLog rt System
                (''Configuration loaded. '' @ show_nat (length parsedDevices) @ '' devices found.'')
                Success s1))"

definition parseConfig :: "runtime \<Rightarrow> string \<Rightarrow> app_state \<Rightarrow> app_state" where
  "parseConfig rt content s =
     (case parseConfig_try rt content s of
        Inr s' \<Rightarrow> s'
      | Inl e \<Rightarrow> addLog rt System ''Failed to parse configuration file.'' Error s)"

section \<open>The log entries of the session lifecycle\<close>

text \<open>
  The calls of \<open>addLog\<close> in \<open>toggleConnection\<close>, in the callbacks \<open>onopen\<close>, \<open>onclose\<close> and
  \<open>onerror\<close> of the session, and in the initialisation effect.
\<close>

datatype lifecycle_event =
  DashboardInitialized | VoiceSessionEnded | ApiKeyNotAvailable | SessionInitializing
  | SessionOpened | ConnectionClosed | ConnectionError | SessionInitFailed

fun log_lifecycle :: "runtime \<Rightarrow> lifecycle_event \<Rightarrow> app_state \<Rightarrow> app_state" where
  "log_lifecycle rt DashboardInitialized s =
     addLog rt System ''iOS AirCommand Dashboard Initialized.'' Info s"
| "log_lifecycle rt VoiceSessionEnded s = addLog rt System ''Voice session ended.'' Info s"
| "log_lifecycle rt ApiKeyNotAvailable s =
     addLog rt System ''API Key not available. Please select one.'' Error s"
| "log_lifecycle rt SessionInitializing s =
     addLog rt System ''Initializing Gemini Live session...'' Info s"
| "log_lifecycle rt SessionOpened s =
     addLog rt AI ''Connected. Listening for voice commands...'' Success s"
| "log_lifecycle rt ConnectionClosed s = addLog rt System ''Connection closed.'' Info s"
| "log_lifecycle rt ConnectionError s = addLog rt System ''Connection error occurred.'' Error s"
| "log_lifecycle rt SessionInitFailed s =
     addLog rt System ''Failed to initialize AI session.'' Error s"

text \<open>The operations of the component that write to the state, and a run of them.\<close>

datatype operation =
  ParseConfig string
  | Execute "IOSDevice list" ScriptCommand "string option" "string list"
  | ToolCalls "IOSDevice list" "FunctionCall list"
  | Lifecycle lifecycle_event

fun run_operation :: "runtime \<Rightarrow> operation \<Rightarrow> app_state \<Rightarrow> app_state" where
  "run_operation rt (ParseConfig content) s = parseConfig rt content s"
| "run_operation rt (Execute devs action argument targetDevices) s =
     snd (handleScriptExecution rt devs action argument targetDevices s)"
| "run_operation rt (ToolCalls devs fcs) s = snd (handle_tool_calls rt devs fcs s)"
| "run_operation rt (Lifecycle ev) s = log_lifecycle rt ev s"

fun run_operations :: "runtime \<Rightarrow> operation list \<Rightarrow> app_state \<Rightarrow> app_state" where
  "run_operations rt [] s = s"
| "run_operations rt (op # ops) s = run_operations rt ops (run_operation rt op s)"

section \<open>The configuration format as the specification words it\<close>

text \<open>
  What one line of the configuration yields, following the words of the specification:
  a blank line and a comment line yield nothing; a line with at least three fields
  separated by commas yields the triple of display name (first field), identifier (second
  field) and network address (third field); a line with fewer fields yields nothing. A field
  is the text between two commas without the white space around it.
\<close>

definition config_line_spec :: "string \<Rightarrow> (string \<times> string \<times> string) option" where
  "config_line_spec line =
     (let t = trim line
      in if t = [] then None
         else if hd t = CHR ''#'' then None
         else (let fields = map trim (split CHR '','' t)
               in if length fields < 3 then None
                  else Some (fields ! 0, fields ! 1, fields ! 2)))"

section \<open>Concrete inputs\<close>

text \<open>A runtime, devices, a state and a tool call on which the functions are evaluated.\<close>

definition example_runtime :: runtime where
  "example_runtime =
     \<lparr>math_random = (\<lambda>k. 0), date_now = (\<lambda>k. 0), number_toString = (\<lambda>radix x. ''0''),
      number_times = (\<lambda>x y. x * y), updater_at_call = False\<rparr>"

definition example_device :: "string \<Rightarrow> string \<Rightarrow> device_status \<Rightarrow> IOSDevice" where
  "example_device udid nm st =
     \<lparr>dev_id = udid, name = nm, model = ''iPhone'', osVersion = ''iOS 17.0'', ip = ''10.0.0.1'',
      status = st, batteryLevel = 80, currentApp = Some ''Settings'', lastScreenshot = None\<rparr>"

definition example_state :: "IOSDevice list \<Rightarrow> app_state" where
  "example_state ds = \<lparr>devices = ds, logs = [], tick = 0\<rparr>"

definition example_call :: "ScriptCommand \<Rightarrow> string list option \<Rightarrow> FunctionCall" where
  "example_call action tds =
     \<lparr>fc_id = ''call'', fc_name = ''execute_ios_script'',
      fc_args = \<lparr>arg_action = action, arg_argument = None, arg_targetDevices = tds\<rparr>\<rparr>"

text \<open>Three devices that are not offline and one that is.\<close>

definition example_registry :: "IOSDevice list" where
  "example_registry =
     [example_device ''A'' ''a'' Connected, example_device ''B'' ''b'' Busy,
      example_device ''C'' ''c'' Connected, example_device ''D'' ''d'' Offline]"

text \<open>A configuration with a comment, a blank line, two device lines and a short line.\<close>

definition example_config :: string where
  "example_config =
     ''# name,udid,host'' @ [CHR 0x0A] @ ''  '' @ [CHR 0x0A] @ ''iphone16p , 00000-001C01C , 10.139.233.204''
       @ [CHR 0x0A] @ ''bad,line'' @ [CHR 0x0A] @ ''ipad,00032-000A2B801C,10.139.233.66,extra''"

text \<open>
  A configuration in which no-break spaces stand before the comment sign and around a field,
  and a line ends with a carriage return.
\<close>

definition example_config_nbsp :: string where
  "example_config_nbsp =
     [CHR 0xA0] @ ''# ipad,1,h'' @ [CHR 0x0A] @ ''ipad,'' @ [CHR 0xA0] @ ''00032'' @ [CHR 0xA0]
       @ '',10.0.0.2'' @ [CHR 0x0D, CHR 0x0A] @ ''x,y''"

text \<open>Four connected devices.\<close>

definition example_fleet :: "IOSDevice list" where
  "example_fleet =
     [example_device ''A'' ''a'' Connected, example_device ''B'' ''b'' Connected,
      example_device ''C'' ''c'' Connected, example_device ''D'' ''d'' Connected]"

section \<open>Basic facts about the log and the second updater\<close>

lemmas example_defs = example_runtime_def example_device_def example_state_def example_call_def
  example_registry_def

lemmas run_defs = dispatch_def handleScriptExecution_def handleScriptExecution_begin_def
        handleScriptExecution_resume_def resolve_targets_def set_busy_def is_target_def
        example_defs addLog_def or_default_def Let_def split_beta

lemma devices_addLog [simp]: "devices (addLog rt src msg ty s) = devices s"
  by (simp add: addLog_def)

lemma logs_addLog [simp]:
  "logs (addLog rt src msg ty s) = logs s @
     [\<lparr>log_id = drop 7 (number_toString rt 36 (math_random rt (tick s))),
       timestamp = date_now rt (tick s), source = src, message = msg, entry_type = ty\<rparr>]"
  by (simp add: addLog_def)

lemma tick_addLog [simp]: "tick (addLog rt src msg ty s) = Suc (tick s)"
  by (simp add: addLog_def)

lemma devices_run_log_calls [simp]: "devices (run_log_calls rt calls s) = devices s"
  by (induction calls arbitrary: s) auto

lemma logs_run_log_calls: "prefix (logs s) (logs (run_log_calls rt calls s))"
proof (induction calls arbitrary: s)
  case Nil
  show ?case by simp
next
  case (Cons c calls)
  obtain src msg ty where c: "c = (src, msg, ty)" by (cases c)
  have "prefix (logs s) (logs (addLog rt src msg ty s))" by simp
  also have "prefix \<dots> (logs (run_log_calls rt calls (addLog rt src msg ty s)))"
    by (rule Cons.IH)
  finally show ?case by (simp add: c)
qed

lemma devices_apply_command [simp]:
  "devices (fst (snd (apply_command rt action argument d s))) = devices s"
  by (cases action) simp_all

lemma logs_apply_command [simp]:
  "logs (fst (snd (apply_command rt action argument d s))) = logs s"
  by (cases action) simp_all

lemma length_settle_devices [simp]:
  "length (fst (settle_devices rt targets action argument ds s)) = length ds"
  by (induction ds arbitrary: s) (simp_all add: split_beta)

lemma devices_settle_devices [simp]:
  "devices (fst (snd (settle_devices rt targets action argument ds s))) = devices s"
  by (induction ds arbitrary: s) (simp_all add: split_beta)

lemma logs_settle_devices [simp]:
  "logs (fst (snd (settle_devices rt targets action argument ds s))) = logs s"
  by (induction ds arbitrary: s) (simp_all add: split_beta)

text \<open>The status of a settled device does not depend on the runtime.\<close>

lemma status_apply_command:
  "status (fst (apply_command rt action argument d s)) = (if action = RESTART then Offline else Connected)"
  by (cases action) simp_all

section \<open>A dispatch without eligible targets\<close>

text \<open>
  Claim C1. When the resolved target set of a call of \<open>handleScriptExecution\<close> is empty,
  the call returns the text that says that no online device was found, the registry is the
  one before the call, and the log has one more entry, from the system and of type error.
\<close>

theorem no_eligible_targets:
  assumes "resolve_targets devs targetDevices = []"
  shows "fst (handleScriptExecution rt devs action argument targetDevices s)
           = ''Error: No online devices found for the command.''
       \<and> devices (snd (handleScriptExecution rt devs action argument targetDevices s)) = devices s
       \<and> (\<exists>e. logs (snd (handleScriptExecution rt devs action argument targetDevices s)) = logs s @ [e]
              \<and> source e = System \<and> entry_type e = Error
              \<and> message e = ''No valid targets found for action: '' @ command_value action)"
  using assms by (simp add: handleScriptExecution_def handleScriptExecution_begin_def)

theorem no_eligible_targets_witness:
  "resolve_targets [example_device ''D'' ''d'' Offline] [''all''] = []
 \<and> fst (handleScriptExecution example_runtime [example_device ''D'' ''d'' Offline] HOME None [''all'']
          (example_state [example_device ''D'' ''d'' Offline]))
     = ''Error: No online devices found for the command.''
 \<and> devices (snd (handleScriptExecution example_runtime [example_device ''D'' ''d'' Offline] HOME None
                   [''all''] (example_state [example_device ''D'' ''d'' Offline])))
     = [example_device ''D'' ''d'' Offline]
 \<and> map entry_type (logs (snd (handleScriptExecution example_runtime
        [example_device ''D'' ''d'' Offline] HOME None [''all'']
        (example_state [example_device ''D'' ''d'' Offline])))) = [Error]"
proof -
  have h: "resolve_targets [example_device ''D'' ''d'' Offline] [''all''] = []"
    by (simp add: resolve_targets_def example_device_def)
  from no_eligible_targets [OF h, where rt = example_runtime and action = HOME and argument = None
      and s = "example_state [example_device ''D'' ''d'' Offline]"]
  show ?thesis using h by (auto simp: example_state_def)
qed

section \<open>The resolved target set\<close>

lemma is_target_iff: "is_target targets d \<longleftrightarrow> dev_id d \<in> dev_id ` set targets"
proof -
  have "(\<exists>x. x \<in> set targets \<and> dev_id x = dev_id d) \<longleftrightarrow> dev_id d \<in> dev_id ` set targets"
    by (metis image_iff)
  then show ?thesis by (simp add: is_target_def find_None_iff)
qed

text \<open>
  The function that resolves the targets, over the array \<open>devices\<close> that the handler
  reads. With the sentinel \<open>all\<close> in the list, the targets are the devices of the array that
  are not offline, in order; without it they are the devices whose identifier is in the list
  and that are not offline. Every target is a device of the array, and an identifier that no
  device has changes nothing.
\<close>

lemma resolve_targets_exact:
  "(''all'' \<in> set tds \<longrightarrow> resolve_targets devs tds = filter (\<lambda>d. status d \<noteq> Offline) devs)
 \<and> (''all'' \<notin> set tds \<longrightarrow>
      resolve_targets devs tds = filter (\<lambda>d. dev_id d \<in> set tds \<and> status d \<noteq> Offline) devs)
 \<and> (\<forall>d \<in> set (resolve_targets devs tds). d \<in> set devs \<and> status d \<noteq> Offline)
 \<and> (u \<noteq> ''all'' \<and> u \<notin> dev_id ` set devs \<longrightarrow>
      resolve_targets devs (u # tds) = resolve_targets devs tds)"
proof (intro conjI)
  show "u \<noteq> ''all'' \<and> u \<notin> dev_id ` set devs \<longrightarrow>
      resolve_targets devs (u # tds) = resolve_targets devs tds"
  proof
    assume u: "u \<noteq> ''all'' \<and> u \<notin> dev_id ` set devs"
    then have "\<And>d. d \<in> set devs \<Longrightarrow> dev_id d \<noteq> u" by auto
    then have "filter (\<lambda>d. (dev_id d = u \<or> dev_id d \<in> set tds) \<and> status d \<noteq> Offline) devs
             = filter (\<lambda>d. dev_id d \<in> set tds \<and> status d \<noteq> Offline) devs"
      by (intro filter_cong) auto
    with u show "resolve_targets devs (u # tds) = resolve_targets devs tds"
      by (auto simp: resolve_targets_def)
  qed
qed (auto simp: resolve_targets_def)

text \<open>
  A registry of three devices that are not offline and one that is, read by the handler of
  the current render: a dispatch of kill to \<open>all\<close> settles the three, leaves the fourth as
  it was and names the three in its result.
\<close>

lemma all_dispatch_example:
  "map (\<lambda>d. (dev_id d, status d, currentApp d))
     (devices (snd (dispatch example_runtime KILL None [''all''] (example_state example_registry))))
   = [(''A'', Connected, Some ''SpringBoard''), (''B'', Connected, Some ''SpringBoard''),
      (''C'', Connected, Some ''SpringBoard''), (''D'', Offline, Some ''Settings'')]
 \<and> fst (dispatch example_runtime KILL None [''all''] (example_state example_registry))
   = ''Command kill executed successfully on a, b, c.''"
  by (simp add: dispatch_def handleScriptExecution_def handleScriptExecution_begin_def
        handleScriptExecution_resume_def resolve_targets_def set_busy_def is_target_def
        example_defs addLog_def or_default_def Let_def split_beta show_nat.simps [of 3] show_nat.simps [of 1])

text \<open>
  Claim C2 says that the targets of every dispatch are devices that are not offline, with
  or without the sentinel. The tool calls of a session run the handler of the render in
  which the session was opened, and that handler resolves the targets over the registry of
  that render. A session opened on four connected devices that restarts device \<open>D\<close> leaves
  three devices online and \<open>D\<close> offline. When the same session then sends kill to \<open>all\<close>,
  the dispatch reaches all four devices, sets \<open>D\<close> connected and names it in its result;
  when it sends url to \<open>D\<close> by name instead, the dispatch sets \<open>D\<close> connected with
  \<open>Safari\<close> as its active app.
\<close>

theorem offline_device_targeted_in_session:
  "map status (devices (snd (handle_tool_calls example_runtime example_fleet
       [example_call RESTART (Some [''D''])] (example_state example_fleet))))
     = [Connected, Connected, Connected, Offline]
 \<and> map (\<lambda>d. (dev_id d, status d, currentApp d))
       (devices (snd (handle_tool_calls example_runtime example_fleet
          [example_call RESTART (Some [''D'']), example_call KILL (Some [''all''])]
          (example_state example_fleet))))
     = [(''A'', Connected, Some ''SpringBoard''), (''B'', Connected, Some ''SpringBoard''),
        (''C'', Connected, Some ''SpringBoard''), (''D'', Connected, Some ''SpringBoard'')]
 \<and> map fr_result (fst (handle_tool_calls example_runtime example_fleet
          [example_call RESTART (Some [''D'']), example_call KILL (Some [''all''])]
          (example_state example_fleet)))
     = [''Command restart executed successfully on d.'',
        ''Command kill executed successfully on a, b, c, d.'']
 \<and> map (\<lambda>d. (dev_id d, status d, currentApp d))
       (devices (snd (handle_tool_calls example_runtime example_fleet
          [example_call RESTART (Some [''D'']), example_call URL (Some [''D''])]
          (example_state example_fleet))))
     = [(''A'', Connected, Some ''Settings''), (''B'', Connected, Some ''Settings''),
        (''C'', Connected, Some ''Settings''), (''D'', Connected, Some ''Safari'')]"
  by code_simp

section \<open>The state of the registry after a dispatch\<close>

lemma is_target_status [simp]: "is_target targets (d\<lparr>status := st\<rparr>) = is_target targets d"
  by (simp add: is_target_def)

lemma tick_apply_command:
  "tick s \<le> tick (fst (snd (apply_command rt action argument d s)))"
  by (cases action) simp_all

lemma tick_settle_devices:
  "tick s \<le> tick (fst (snd (settle_devices rt targets action argument ds s)))"
proof (induction ds arbitrary: s)
  case Nil
  show ?case by simp
next
  case (Cons d ds)
  show ?case
  proof (cases "is_target targets d")
    case True
    have "tick s \<le> tick (fst (snd (apply_command rt action argument d s)))"
      by (rule tick_apply_command)
    also have "\<dots> \<le> tick (fst (snd (settle_devices rt targets action argument ds
                 (fst (snd (apply_command rt action argument d s))))))"
      by (rule Cons.IH)
    finally show ?thesis using True by (simp add: split_beta)
  next
    case False
    then show ?thesis using Cons.IH [of s] by (simp add: split_beta)
  qed
qed

lemma settle_devices_nth_tick:
  "i < length ds \<Longrightarrow>
   \<exists>s'. tick s \<le> tick s' \<and> fst (settle_devices rt targets action argument ds s) ! i =
     (if is_target targets (ds ! i) then fst (apply_command rt action argument (ds ! i) s') else ds ! i)"
proof (induction ds arbitrary: s i)
  case Nil
  then show ?case by simp
next
  case (Cons d ds)
  show ?case
  proof (cases i)
    case 0
    then show ?thesis by (auto simp: split_beta)
  next
    case (Suc j)
    with Cons.prems have j: "j < length ds" by simp
    show ?thesis
    proof (cases "is_target targets d")
      case True
      let ?s1 = "fst (snd (apply_command rt action argument d s))"
      from Cons.IH [OF j, of ?s1]
      obtain s' where "tick ?s1 \<le> tick s'"
        and "fst (settle_devices rt targets action argument ds ?s1) ! j =
             (if is_target targets (ds ! j) then fst (apply_command rt action argument (ds ! j) s')
              else ds ! j)"
        by blast
      moreover have "tick s \<le> tick ?s1"
        by (rule tick_apply_command)
      ultimately show ?thesis using True Suc
        by (intro exI [of _ s']) (simp add: split_beta)
    next
      case False
      from Cons.IH [OF j, of s]
      show ?thesis using False Suc by (auto simp: split_beta)
    qed
  qed
qed

lemma set_busy_nth:
  "i < length ds \<Longrightarrow>
   set_busy targets ds ! i = (if is_target targets (ds ! i) then (ds ! i)\<lparr>status := Busy\<rparr> else ds ! i)"
  by (simp add: set_busy_def)

lemma length_set_busy [simp]: "length (set_busy targets ds) = length ds"
  by (simp add: set_busy_def)

lemma begin_nonempty:
  assumes "resolve_targets devs tds \<noteq> []"
  shows "\<exists>names s2. handleScriptExecution_begin rt devs action argument tds s =
             Inr (resolve_targets devs tds, names, s2)
           \<and> devices s2 = set_busy (resolve_targets devs tds) (devices s)
           \<and> tick s2 = Suc (tick s)
           \<and> (\<exists>e. logs s2 = logs s @ [e])"
  using assms by (simp add: handleScriptExecution_begin_def Let_def)

lemma devices_resume:
  "devices (snd (handleScriptExecution_resume rt action argument targets deviceNames s)) =
     fst (settle_devices rt targets action argument (devices s) s)"
  by (cases "updater_at_call rt") (simp_all add: handleScriptExecution_resume_def split_beta Let_def)

lemma devices_handleScriptExecution:
  assumes "resolve_targets devs tds \<noteq> []"
  shows "\<exists>s2. tick s2 = Suc (tick s) \<and>
           devices (snd (handleScriptExecution rt devs action argument tds s)) =
             fst (settle_devices rt (resolve_targets devs tds) action argument
                    (set_busy (resolve_targets devs tds) (devices s)) s2)"
proof -
  from begin_nonempty [OF assms, where rt = rt and action = action and argument = argument and s = s]
  obtain names s2 where b: "handleScriptExecution_begin rt devs action argument tds s =
             Inr (resolve_targets devs tds, names, s2)"
    and d: "devices s2 = set_busy (resolve_targets devs tds) (devices s)"
    and t: "tick s2 = Suc (tick s)"
    by blast
  have "devices (snd (handleScriptExecution rt devs action argument tds s)) =
          fst (settle_devices rt (resolve_targets devs tds) action argument (devices s2) s2)"
    by (simp add: handleScriptExecution_def b devices_resume)
  with d t show ?thesis by auto
qed

lemma length_devices_handleScriptExecution [simp]:
  "length (devices (snd (handleScriptExecution rt devs action argument tds s))) = length (devices s)"
proof (cases "resolve_targets devs tds = []")
  case True
  then show ?thesis
    by (simp add: handleScriptExecution_def handleScriptExecution_begin_def)
next
  case False
  from devices_handleScriptExecution [OF False, where rt = rt and action = action and argument = argument and s = s]
  show ?thesis by auto
qed

text \<open>A device of the registry after a dispatch, in terms of one run of the switch.\<close>

lemma handleScriptExecution_nth:
  assumes "resolve_targets devs tds \<noteq> []" and "i < length (devices s)"
  shows "\<exists>s'. tick s < tick s' \<and>
           devices (snd (handleScriptExecution rt devs action argument tds s)) ! i =
             (if is_target (resolve_targets devs tds) (devices s ! i)
              then fst (apply_command rt action argument ((devices s ! i)\<lparr>status := Busy\<rparr>) s')
              else devices s ! i)"
proof -
  let ?tg = "resolve_targets devs tds"
  from devices_handleScriptExecution [OF assms(1), where rt = rt and action = action and argument = argument and s = s]
  obtain s2 where s2: "tick s2 = Suc (tick s)"
    and eq: "devices (snd (handleScriptExecution rt devs action argument tds s)) =
             fst (settle_devices rt ?tg action argument (set_busy ?tg (devices s)) s2)"
    by blast
  from assms(2) have "i < length (set_busy ?tg (devices s))" by simp
  from settle_devices_nth_tick [OF this, where s = s2 and rt = rt and targets = ?tg and action = action and argument = argument]
  obtain s' where "tick s2 \<le> tick s'"
    and "fst (settle_devices rt ?tg action argument (set_busy ?tg (devices s)) s2) ! i =
         (if is_target ?tg (set_busy ?tg (devices s) ! i)
          then fst (apply_command rt action argument (set_busy ?tg (devices s) ! i) s')
          else set_busy ?tg (devices s) ! i)"
    by blast
  with s2 eq assms(2) show ?thesis
    by (intro exI [of _ s']) (simp add: set_busy_nth)
qed

lemma apply_command_busy:
  assumes "t0 < tick s"
  shows "(let d' = fst (apply_command rt action argument (d\<lparr>status := Busy\<rparr>) s)
          in status d' = (if action = RESTART then Offline else Connected)
           \<and> currentApp d' =
               (case action of
                  URL \<Rightarrow> Some ''Safari''
                | LAUNCH \<Rightarrow>
                    Some (case argument of None \<Rightarrow> ''App'' | Some a \<Rightarrow> if a = [] then ''App'' else a)
                | KILL \<Rightarrow> Some ''SpringBoard''
                | HOME \<Rightarrow> Some ''SpringBoard''
                | _ \<Rightarrow> currentApp d)
           \<and> (if action = SCREENSHOT
                then \<exists>k > t0. lastScreenshot d' =
                       Some (''https://picsum.photos/seed/''
                               @ number_toString rt 10 (math_random rt k) @ ''/360/640'')
                else lastScreenshot d' = lastScreenshot d)
           \<and> dev_id d' = dev_id d \<and> name d' = name d \<and> model d' = model d
           \<and> osVersion d' = osVersion d \<and> ip d' = ip d \<and> batteryLevel d' = batteryLevel d
           \<and> (action \<in> {TEXT, INSTALL, UNINSTALL, APPS, QUIT} \<longrightarrow> d' = d\<lparr>status := Connected\<rparr>))"
proof (cases action)
  case SCREENSHOT
  have "\<exists>k > t0. number_toString rt 10 (math_random rt (tick s))
                   = number_toString rt 10 (math_random rt k)"
    using assms by blast
  with SCREENSHOT show ?thesis by simp
qed (simp_all add: or_default_def)

text \<open>
  Claim C3 as stated says that launch sets the active app to the argument whenever there is
  one. With the empty string as argument the active app becomes \<open>App\<close>: the empty
  string is falsy in \<open>argument || 'App'\<close>.
\<close>

theorem launch_empty_argument_counterexample:
  "currentApp (devices (snd (handleScriptExecution example_runtime
       [example_device ''A'' ''a'' Connected] LAUNCH (Some '''') [''all'']
       (example_state [example_device ''A'' ''a'' Connected]))) ! 0) = Some ''App''
 \<and> currentApp (devices (snd (handleScriptExecution example_runtime
       [example_device ''A'' ''a'' Connected] LAUNCH (Some '''') [''all'']
       (example_state [example_device ''A'' ''a'' Connected]))) ! 0) \<noteq> Some ''''"
  by (simp add: handleScriptExecution_def handleScriptExecution_begin_def
        handleScriptExecution_resume_def resolve_targets_def set_busy_def is_target_def
        example_defs addLog_def or_default_def Let_def split_beta show_nat.simps [of 3] show_nat.simps [of 1])

text \<open>
  Claim C3, amended. After a dispatch with at least one target, each device of the registry
  that matches a target has status connected, or offline when the action is restart. Its
  active app is \<open>Safari\<close> after url; after launch it is the argument, or \<open>App\<close> when the
  argument is absent or the empty string; it is \<open>SpringBoard\<close> after kill and home; any
  other action keeps it. Screenshot sets the screen image to an address built from a reading
  of \<open>Math.random()\<close> taken during the dispatch, and any other action keeps the screen
  image. No action changes the identifier, the name, the model, the OS version, the address
  or the battery level, and text, install, uninstall, apps and quit change nothing but the
  status.
\<close>

theorem settled_device_fields:
  assumes "resolve_targets devs tds \<noteq> []"
      and "i < length (devices s)"
      and "is_target (resolve_targets devs tds) (devices s ! i)"
  shows "(let d = devices s ! i;
              d' = devices (snd (handleScriptExecution rt devs action argument tds s)) ! i
          in status d' = (if action = RESTART then Offline else Connected)
           \<and> currentApp d' =
               (case action of
                  URL \<Rightarrow> Some ''Safari''
                | LAUNCH \<Rightarrow>
                    Some (case argument of None \<Rightarrow> ''App'' | Some a \<Rightarrow> if a = [] then ''App'' else a)
                | KILL \<Rightarrow> Some ''SpringBoard''
                | HOME \<Rightarrow> Some ''SpringBoard''
                | _ \<Rightarrow> currentApp d)
           \<and> (if action = SCREENSHOT
                then \<exists>k > tick s. lastScreenshot d' =
                       Some (''https://picsum.photos/seed/''
                               @ number_toString rt 10 (math_random rt k) @ ''/360/640'')
                else lastScreenshot d' = lastScreenshot d)
           \<and> dev_id d' = dev_id d \<and> name d' = name d \<and> model d' = model d
           \<and> osVersion d' = osVersion d \<and> ip d' = ip d \<and> batteryLevel d' = batteryLevel d
           \<and> (action \<in> {TEXT, INSTALL, UNINSTALL, APPS, QUIT} \<longrightarrow> d' = d\<lparr>status := Connected\<rparr>))"
proof -
  from handleScriptExecution_nth [OF assms(1,2), where rt = rt and action = action and argument = argument]
    assms(3)
  obtain s' where t: "tick s < tick s'"
    and eq: "devices (snd (handleScriptExecution rt devs action argument tds s)) ! i =
             fst (apply_command rt action argument ((devices s ! i)\<lparr>status := Busy\<rparr>) s')"
    by auto
  from apply_command_busy [OF t, where rt = rt and action = action and argument = argument
      and d = "devices s ! i"]
  show ?thesis unfolding Let_def eq .
qed

theorem settled_device_fields_witness:
  "resolve_targets [example_device ''A'' ''a'' Connected] [''all''] \<noteq> []
 \<and> 0 < length (devices (example_state [example_device ''A'' ''a'' Connected]))
 \<and> is_target (resolve_targets [example_device ''A'' ''a'' Connected] [''all''])
       (devices (example_state [example_device ''A'' ''a'' Connected]) ! 0)
 \<and> status (devices (snd (handleScriptExecution example_runtime
       [example_device ''A'' ''a'' Connected] LAUNCH (Some ''Maps'') [''all'']
       (example_state [example_device ''A'' ''a'' Connected]))) ! 0) = Connected
 \<and> currentApp (devices (snd (handleScriptExecution example_runtime
       [example_device ''A'' ''a'' Connected] LAUNCH (Some ''Maps'') [''all'']
       (example_state [example_device ''A'' ''a'' Connected]))) ! 0) = Some ''Maps''"
proof -
  have h1: "resolve_targets [example_device ''A'' ''a'' Connected] [''all''] \<noteq> []"
    by (simp add: resolve_targets_def example_device_def)
  have h2: "0 < length (devices (example_state [example_device ''A'' ''a'' Connected]))"
    by (simp add: example_state_def)
  have h3: "is_target (resolve_targets [example_device ''A'' ''a'' Connected] [''all''])
       (devices (example_state [example_device ''A'' ''a'' Connected]) ! 0)"
    by (simp add: resolve_targets_def example_device_def example_state_def is_target_def)
  from settled_device_fields [OF h1 h2 h3, where rt = example_runtime and action = LAUNCH
      and argument = "Some ''Maps''"]
  have "status (devices (snd (handleScriptExecution example_runtime
       [example_device ''A'' ''a'' Connected] LAUNCH (Some ''Maps'') [''all'']
       (example_state [example_device ''A'' ''a'' Connected]))) ! 0) = Connected
     \<and> currentApp (devices (snd (handleScriptExecution example_runtime
       [example_device ''A'' ''a'' Connected] LAUNCH (Some ''Maps'') [''all'']
       (example_state [example_device ''A'' ''a'' Connected]))) ! 0) = Some ''Maps''"
    by (simp add: Let_def)
  with h1 h2 h3 show ?thesis by blast
qed

section \<open>The two updates of a dispatch and the devices they leave alone\<close>

lemma devices_handleScriptExecution_empty:
  "resolve_targets devs tds = [] \<Longrightarrow>
   devices (snd (handleScriptExecution rt devs action argument tds s)) = devices s"
  by (simp add: handleScriptExecution_def handleScriptExecution_begin_def)

lemma resolve_targets_subset: "set (resolve_targets devs tds) \<subseteq> set devs"
  by (auto simp: resolve_targets_def)

lemma is_target_member:
  assumes "distinct (map dev_id devs)" and "d \<in> set devs"
  shows "is_target (resolve_targets devs tds) d \<longleftrightarrow> d \<in> set (resolve_targets devs tds)"
proof
  assume "is_target (resolve_targets devs tds) d"
  then obtain t where t: "t \<in> set (resolve_targets devs tds)" and eq: "dev_id t = dev_id d"
    by (auto simp: is_target_iff)
  from t have "t \<in> set devs" using resolve_targets_subset by blast
  moreover from assms(1) have "inj_on dev_id (set devs)" by (simp add: distinct_map)
  ultimately have "t = d" using assms(2) eq by (auto dest: inj_onD)
  with t show "d \<in> set (resolve_targets devs tds)" by simp
next
  assume "d \<in> set (resolve_targets devs tds)"
  then show "is_target (resolve_targets devs tds) d" by (auto simp: is_target_iff)
qed

text \<open>
  Claim C4. A dispatch with at least one target reaches its delay with one update of the
  registry, \<open>set_busy\<close>, in which every device that matches a target is busy and every
  other device is as before; the run after the delay is one more update, after which every
  device that matches a target has its settled status and every other device is still as
  before the dispatch. A device matches a target when a target has its identifier; when the
  handler reads the current registry and the identifiers of the registry are distinct, the
  devices that match are the members of the target list.
\<close>

theorem two_phase_frame:
  assumes "resolve_targets devs tds \<noteq> []"
  shows "handleScriptExecution_begin rt devs action argument tds s
           = Inr (resolve_targets devs tds, join '', '' (map name (resolve_targets devs tds)),
                  state_after_begin rt devs action argument tds s)
       \<and> handleScriptExecution rt devs action argument tds s
           = handleScriptExecution_resume rt action argument (resolve_targets devs tds)
               (join '', '' (map name (resolve_targets devs tds)))
               (state_after_begin rt devs action argument tds s)
       \<and> devices (state_after_begin rt devs action argument tds s)
           = set_busy (resolve_targets devs tds) (devices s)
       \<and> length (devices (snd (handleScriptExecution rt devs action argument tds s)))
           = length (devices s)
       \<and> (\<forall>i < length (devices s).
             if is_target (resolve_targets devs tds) (devices s ! i)
             then devices (state_after_begin rt devs action argument tds s) ! i
                    = (devices s ! i)\<lparr>status := Busy\<rparr>
                \<and> status (devices (snd (handleScriptExecution rt devs action argument tds s)) ! i)
                    = (if action = RESTART then Offline else Connected)
             else devices (state_after_begin rt devs action argument tds s) ! i = devices s ! i
                \<and> devices (snd (handleScriptExecution rt devs action argument tds s)) ! i
                    = devices s ! i)
       \<and> (devs = devices s \<and> distinct (map dev_id devs) \<longrightarrow>
            (\<forall>d \<in> set (devices s).
               is_target (resolve_targets devs tds) d \<longleftrightarrow> d \<in> set (resolve_targets devs tds)))"
proof -
  let ?tg = "resolve_targets devs tds"
  let ?mid = "state_after_begin rt devs action argument tds s"
  let ?fin = "devices (snd (handleScriptExecution rt devs action argument tds s))"
  have b: "handleScriptExecution_begin rt devs action argument tds s
        = Inr (?tg, join '', '' (map name ?tg), ?mid)"
    using assms by (simp add: state_after_begin_def handleScriptExecution_begin_def Let_def)
  have d: "devices ?mid = set_busy ?tg (devices s)"
    using assms by (simp add: state_after_begin_def handleScriptExecution_begin_def Let_def)
  have r: "handleScriptExecution rt devs action argument tds s
        = handleScriptExecution_resume rt action argument ?tg (join '', '' (map name ?tg)) ?mid"
    by (simp add: handleScriptExecution_def b)
  have nth: "if is_target ?tg (devices s ! i)
             then devices ?mid ! i = (devices s ! i)\<lparr>status := Busy\<rparr>
                \<and> status (?fin ! i) = (if action = RESTART then Offline else Connected)
             else devices ?mid ! i = devices s ! i \<and> ?fin ! i = devices s ! i"
    if i: "i < length (devices s)" for i
  proof -
    from handleScriptExecution_nth [OF assms i, where rt = rt and action = action
        and argument = argument]
    obtain s' where "?fin ! i =
        (if is_target ?tg (devices s ! i)
         then fst (apply_command rt action argument ((devices s ! i)\<lparr>status := Busy\<rparr>) s')
         else devices s ! i)"
      by blast
    with i d show ?thesis by (simp add: set_busy_nth status_apply_command)
  qed
  have m: "devs = devices s \<and> distinct (map dev_id devs) \<longrightarrow>
      (\<forall>d \<in> set (devices s). is_target ?tg d \<longleftrightarrow> d \<in> set ?tg)"
    using is_target_member by blast
  have len: "length ?fin = length (devices s)" by simp
  from nth have nth_all: "\<forall>i < length (devices s).
         if is_target ?tg (devices s ! i)
         then devices ?mid ! i = (devices s ! i)\<lparr>status := Busy\<rparr>
            \<and> status (?fin ! i) = (if action = RESTART then Offline else Connected)
         else devices ?mid ! i = devices s ! i \<and> ?fin ! i = devices s ! i"
    by blast
  show ?thesis
    by (intro conjI) (rule b, rule r, rule d, rule len, rule nth_all, rule m)
qed

theorem two_phase_frame_witness:
  "resolve_targets [example_device ''A'' ''a'' Connected, example_device ''D'' ''d'' Offline] [''all'']
     \<noteq> []
 \<and> status (devices (snd (handleScriptExecution example_runtime
       [example_device ''A'' ''a'' Connected, example_device ''D'' ''d'' Offline] RESTART None [''all'']
       (example_state [example_device ''A'' ''a'' Connected, example_device ''D'' ''d'' Offline])))
       ! 0) = Offline
 \<and> devices (snd (handleScriptExecution example_runtime
       [example_device ''A'' ''a'' Connected, example_device ''D'' ''d'' Offline] RESTART None [''all'']
       (example_state [example_device ''A'' ''a'' Connected, example_device ''D'' ''d'' Offline])))
       ! 1 = example_device ''D'' ''d'' Offline"
proof -
  let ?devs = "[example_device ''A'' ''a'' Connected, example_device ''D'' ''d'' Offline]"
  let ?s = "example_state ?devs"
  let ?fin = "devices (snd (handleScriptExecution example_runtime ?devs RESTART None [''all''] ?s))"
  have h: "resolve_targets ?devs [''all''] \<noteq> []"
    by (simp add: resolve_targets_def example_device_def)
  have t0: "is_target (resolve_targets ?devs [''all'']) (devices ?s ! 0)"
    by (simp add: resolve_targets_def example_device_def example_state_def is_target_def)
  have t1: "\<not> is_target (resolve_targets ?devs [''all'']) (devices ?s ! 1)"
    by (simp add: resolve_targets_def example_device_def example_state_def is_target_def)
  have l0: "0 < length (devices ?s)" and l1: "1 < length (devices ?s)"
    by (simp_all add: example_state_def)
  note T = two_phase_frame [OF h, where rt = example_runtime and action = RESTART
      and argument = None and s = ?s]
  note all = T [THEN conjunct2, THEN conjunct2, THEN conjunct2, THEN conjunct2, THEN conjunct1,
      rule_format]
  from all [OF l0] t0 have a: "status (?fin ! 0) = Offline" by simp
  from all [OF l1] t1 have "?fin ! 1 = devices ?s ! 1" by simp
  moreover have "devices ?s ! 1 = example_device ''D'' ''d'' Offline"
    by (simp add: example_state_def)
  ultimately have b: "?fin ! 1 = example_device ''D'' ''d'' Offline" by (simp only:)
  from h a b show ?thesis by blast
qed

section \<open>Going home twice\<close>

lemma settle_devices_HOME:
  "settle_devices rt targets HOME argument ds s =
     (map (\<lambda>d. if is_target targets d
               then d\<lparr>status := Connected, currentApp := Some ''SpringBoard''\<rparr> else d) ds, s, [])"
  by (induction ds) simp_all

lemma devices_handleScriptExecution_HOME:
  assumes "resolve_targets devs tds \<noteq> []"
  shows "devices (snd (handleScriptExecution rt devs HOME argument tds s)) =
           map (\<lambda>d. if is_target (resolve_targets devs tds) d
                     then d\<lparr>status := Connected, currentApp := Some ''SpringBoard''\<rparr> else d)
               (devices s)"
proof -
  from devices_handleScriptExecution [OF assms, where rt = rt and action = HOME
      and argument = argument and s = s]
  show ?thesis by (auto simp: settle_devices_HOME set_busy_def)
qed

lemma is_target_currentApp [simp]:
  "is_target targets (d\<lparr>currentApp := a\<rparr>) = is_target targets d"
  by (simp add: is_target_def)

lemma go_home_again:
  assumes "\<And>d. d \<in> set ds \<Longrightarrow> is_target tg2 d \<Longrightarrow> is_target tg d"
  shows "map (\<lambda>d. if is_target tg2 d
                   then d\<lparr>status := Connected, currentApp := Some ''SpringBoard''\<rparr> else d)
           (map (\<lambda>d. if is_target tg d
                   then d\<lparr>status := Connected, currentApp := Some ''SpringBoard''\<rparr> else d) ds)
       = map (\<lambda>d. if is_target tg d
                   then d\<lparr>status := Connected, currentApp := Some ''SpringBoard''\<rparr> else d) ds"
  using assms by auto

lemma retarget_after_home:
  assumes "is_target (resolve_targets
              (map (\<lambda>d. if is_target (resolve_targets ds tds) d
                         then d\<lparr>status := Connected, currentApp := Some ''SpringBoard''\<rparr> else d) ds)
              tds) d"
  shows "is_target (resolve_targets ds tds) d"
proof -
  let ?tg = "resolve_targets ds tds"
  let ?h = "\<lambda>d. if is_target ?tg d
                  then d\<lparr>status := Connected, currentApp := Some ''SpringBoard''\<rparr> else d"
  from assms obtain t2 where t2: "t2 \<in> set (resolve_targets (map ?h ds) tds)"
    and eq: "dev_id t2 = dev_id d"
    by (auto simp: is_target_iff)
  from t2 obtain t where t: "t \<in> set ds" and ht: "t2 = ?h t"
    using resolve_targets_subset [of "map ?h ds" tds] by auto
  have "is_target ?tg t"
  proof (rule ccontr)
    assume n: "\<not> is_target ?tg t"
    with ht have "t2 = t" by simp
    with t2 t have "t \<in> set ?tg" by (auto simp: resolve_targets_def split: if_splits)
    then have "is_target ?tg t" by (auto simp: is_target_iff)
    with n show False by simp
  qed
  moreover from ht have "dev_id t2 = dev_id t" by simp
  ultimately show ?thesis using eq by (simp add: is_target_iff)
qed

text \<open>
  Claim C5. A second dispatch of home to the same target list leaves the registry that the
  first one produced, so every device has the active app it had after the first dispatch.
  This holds when each dispatch reads the registry current at its start, and when both run
  the handler of one render.
\<close>

theorem go_home_idempotent:
  "devices (snd (dispatch rt HOME a2 tds (snd (dispatch rt HOME a1 tds s))))
     = devices (snd (dispatch rt HOME a1 tds s))
 \<and> map currentApp (devices (snd (dispatch rt HOME a2 tds (snd (dispatch rt HOME a1 tds s)))))
     = map currentApp (devices (snd (dispatch rt HOME a1 tds s)))
 \<and> devices (snd (handleScriptExecution rt devs HOME a2 tds
                   (snd (handleScriptExecution rt devs HOME a1 tds s))))
     = devices (snd (handleScriptExecution rt devs HOME a1 tds s))"
proof -
  have fresh: "devices (snd (dispatch rt HOME a2 tds (snd (dispatch rt HOME a1 tds s))))
     = devices (snd (dispatch rt HOME a1 tds s))"
  proof (cases "resolve_targets (devices s) tds = []")
    case True
    then show ?thesis by (simp add: dispatch_def devices_handleScriptExecution_empty)
  next
    case False
    let ?s1 = "snd (dispatch rt HOME a1 tds s)"
    from False have d1: "devices ?s1 =
        map (\<lambda>d. if is_target (resolve_targets (devices s) tds) d
                  then d\<lparr>status := Connected, currentApp := Some ''SpringBoard''\<rparr> else d)
            (devices s)"
      by (simp add: dispatch_def devices_handleScriptExecution_HOME)
    show ?thesis
    proof (cases "resolve_targets (devices ?s1) tds = []")
      case True
      then show ?thesis
        by (simp add: dispatch_def [of rt HOME a2] devices_handleScriptExecution_empty)
    next
      case False
      then have "devices (snd (dispatch rt HOME a2 tds ?s1)) =
        map (\<lambda>d. if is_target (resolve_targets (devices ?s1) tds) d
                  then d\<lparr>status := Connected, currentApp := Some ''SpringBoard''\<rparr> else d)
            (devices ?s1)"
        by (simp add: dispatch_def [of rt HOME a2] devices_handleScriptExecution_HOME)
      also have "\<dots> = devices ?s1"
        unfolding d1 by (rule go_home_again) (rule retarget_after_home)
      finally show ?thesis .
    qed
  qed
  have stale: "devices (snd (handleScriptExecution rt devs HOME a2 tds
                   (snd (handleScriptExecution rt devs HOME a1 tds s))))
     = devices (snd (handleScriptExecution rt devs HOME a1 tds s))"
  proof (cases "resolve_targets devs tds = []")
    case True
    then show ?thesis by (simp add: devices_handleScriptExecution_empty)
  next
    case False
    then show ?thesis
      by (simp add: devices_handleScriptExecution_HOME go_home_again)
  qed
  from fresh stale show ?thesis by simp
qed

theorem go_home_idempotent_witness:
  "devices (snd (dispatch example_runtime HOME None [''all'']
      (snd (dispatch example_runtime HOME None [''all''] (example_state example_registry)))))
   = devices (snd (dispatch example_runtime HOME None [''all''] (example_state example_registry)))"
  using go_home_idempotent [of example_runtime None "[''all'']" None "example_state example_registry"]
  by blast

section \<open>Restart\<close>

text \<open>
  After a restart every device that matches a target is offline, and a dispatch to \<open>all\<close>
  that reads the registry as it is then does not target it.
\<close>

lemma restart_excluded_by_current_all:
  assumes "resolve_targets devs tds \<noteq> []"
      and "i < length (devices s)"
      and "is_target (resolve_targets devs tds) (devices s ! i)"
  shows "status (devices (snd (handleScriptExecution rt devs RESTART argument tds s)) ! i) = Offline
       \<and> devices (snd (handleScriptExecution rt devs RESTART argument tds s)) ! i
           \<notin> set (resolve_targets
                     (devices (snd (handleScriptExecution rt devs RESTART argument tds s))) [''all''])"
proof -
  from handleScriptExecution_nth [OF assms(1,2), where rt = rt and action = RESTART
      and argument = argument] assms(3)
  have "status (devices (snd (handleScriptExecution rt devs RESTART argument tds s)) ! i) = Offline"
    by auto
  then show ?thesis by (auto simp: resolve_targets_def)
qed

text \<open>
  Claim C6 says that a device that a restart has left offline is no target of a later
  dispatch to \<open>all\<close>. The tool calls of a session all run the handler of the render in
  which the session was opened, and that handler reads the registry of that render. On a
  registry of one connected device, a session that restarts the device leaves it offline;
  the target list that the handler computes for \<open>all\<close> still holds the device; and a
  session that restarts it and then sends home to \<open>all\<close> leaves it connected, both calls
  reporting success.
\<close>

theorem restart_undone_by_session_snapshot:
  "map status (devices (snd (handle_tool_calls example_runtime [example_device ''A'' ''a'' Connected]
       [example_call RESTART (Some [''all''])]
       (example_state [example_device ''A'' ''a'' Connected])))) = [Offline]
 \<and> resolve_targets [example_device ''A'' ''a'' Connected] [''all'']
     = [example_device ''A'' ''a'' Connected]
 \<and> map status (devices (snd (handle_tool_calls example_runtime [example_device ''A'' ''a'' Connected]
       [example_call RESTART (Some [''all'']), example_call HOME (Some [''all''])]
       (example_state [example_device ''A'' ''a'' Connected])))) = [Connected]
 \<and> map fr_result (fst (handle_tool_calls example_runtime [example_device ''A'' ''a'' Connected]
       [example_call RESTART (Some [''all'']), example_call HOME (Some [''all''])]
       (example_state [example_device ''A'' ''a'' Connected])))
     = [''Command restart executed successfully on a.'', ''Command home executed successfully on a.'']"
  by code_simp

section \<open>The schedule of inbound audio\<close>

lemma length_schedule_chunks [simp]:
  "length (fst (schedule_chunks chunks n0)) = length chunks"
  by (induction chunks arbitrary: n0) (auto simp: split_beta schedule_chunk_def Let_def)

lemma schedule_chunks_nth:
  "i < length chunks \<Longrightarrow>
   fst (schedule_chunks chunks n0) ! i
     = max (snd (schedule_chunks (take i chunks) n0)) (fst (chunks ! i))
 \<and> snd (schedule_chunks (take (Suc i) chunks) n0)
     = fst (schedule_chunks chunks n0) ! i + snd (chunks ! i)"
proof (induction chunks arbitrary: n0 i)
  case Nil
  then show ?case by simp
next
  case (Cons c cs)
  obtain t d where c: "c = (t, d)" by (cases c)
  show ?case
  proof (cases i)
    case 0
    then show ?thesis by (simp add: c split_beta schedule_chunk_def Let_def)
  next
    case (Suc j)
    with Cons.prems have "j < length cs" by simp
    from Cons.IH [OF this, of "max n0 t + d"] Suc
    show ?thesis by (simp add: c split_beta schedule_chunk_def Let_def)
  qed
qed

text \<open>
  Claim C7. For chunks handled in arrival order, the start time of each chunk is the
  greater of the cursor before it and the clock at its arrival, and the cursor after it is
  that start time plus its duration; so each start time is at least the previous start time
  plus the previous duration, and the start times never decrease when no duration is
  negative. The last part needs of the addition only that adding a duration that is not
  negative does not make a time smaller.
\<close>

theorem audio_schedule_ordered:
  fixes chunks :: "('a::{linorder, plus, zero} \<times> 'a) list"
  shows "length (fst (schedule_chunks chunks n0)) = length chunks
   \<and> (\<forall>i < length chunks.
         fst (schedule_chunks chunks n0) ! i
           = max (snd (schedule_chunks (take i chunks) n0)) (fst (chunks ! i))
       \<and> snd (schedule_chunks (take (Suc i) chunks) n0)
           = fst (schedule_chunks chunks n0) ! i + snd (chunks ! i))
   \<and> (\<forall>i. Suc i < length chunks \<longrightarrow>
         fst (schedule_chunks chunks n0) ! i + snd (chunks ! i)
           \<le> fst (schedule_chunks chunks n0) ! Suc i)
   \<and> ((\<forall>a d :: 'a. 0 \<le> d \<longrightarrow> a \<le> a + d) \<and> (\<forall>c \<in> set chunks. 0 \<le> snd c) \<longrightarrow>
         sorted (fst (schedule_chunks chunks n0)))"
proof -
  let ?starts = "fst (schedule_chunks chunks n0)"
  have step: "?starts ! i + snd (chunks ! i) \<le> ?starts ! Suc i" if "Suc i < length chunks" for i
  proof -
    from that have i: "i < length chunks" by simp
    have "?starts ! Suc i = max (snd (schedule_chunks (take (Suc i) chunks) n0)) (fst (chunks ! Suc i))"
      using schedule_chunks_nth [OF that] by blast
    also have "snd (schedule_chunks (take (Suc i) chunks) n0) = ?starts ! i + snd (chunks ! i)"
      using schedule_chunks_nth [OF i] by blast
    finally show ?thesis by simp
  qed
  have srt: "sorted ?starts"
    if mono: "\<forall>a d :: 'a. 0 \<le> d \<longrightarrow> a \<le> a + d" and pos: "\<forall>c \<in> set chunks. 0 \<le> snd c"
  proof -
    have "?starts ! i \<le> ?starts ! Suc i" if "Suc i < length ?starts" for i
    proof -
      from that have s: "Suc i < length chunks" by simp
      then have "chunks ! i \<in> set chunks" by simp
      with pos have "0 \<le> snd (chunks ! i)" by blast
      with mono have "?starts ! i \<le> ?starts ! i + snd (chunks ! i)" by blast
      also have "\<dots> \<le> ?starts ! Suc i" by (rule step [OF s])
      finally show ?thesis .
    qed
    then show ?thesis by (simp add: sorted_iff_nth_Suc)
  qed
  from step srt schedule_chunks_nth [where chunks = chunks and ?n0.0 = n0]
  show ?thesis by (intro conjI allI impI) auto
qed

theorem audio_schedule_ordered_witness:
  "(1 :: nat) < length [(0 :: real, 2 :: real), (1, 3), (10, 1)]
 \<and> Suc 1 < length [(0 :: real, 2 :: real), (1, 3), (10, 1)]
 \<and> sorted (fst (schedule_chunks [(0 :: real, 2), (1, 3), (10, 1)] 0))
 \<and> fst (schedule_chunks [(0 :: real, 2), (1, 3), (10, 1)] 0) ! 1
     = max (snd (schedule_chunks (take 1 [(0 :: real, 2), (1, 3), (10, 1)]) 0))
         (fst ([(0 :: real, 2 :: real), (1, 3), (10, 1)] ! 1))
 \<and> fst (schedule_chunks [(0 :: real, 2), (1, 3), (10, 1)] 0) ! 1
       + snd ([(0 :: real, 2 :: real), (1, 3), (10, 1)] ! 1)
     \<le> fst (schedule_chunks [(0 :: real, 2), (1, 3), (10, 1)] 0) ! Suc 1
 \<and> fst (schedule_chunks [(0 :: real, 2), (1, 3), (10, 1)] 0) = [0, 2, 10]"
proof -
  let ?chunks = "[(0 :: real, 2 :: real), (1, 3), (10, 1)]"
  note T = audio_schedule_ordered [of ?chunks 0]
  have m: "\<forall>a d :: real. 0 \<le> d \<longrightarrow> a \<le> a + d" by simp
  have p: "\<forall>c \<in> set ?chunks. 0 \<le> snd c" by simp
  have l1: "(1 :: nat) < length ?chunks" and l2: "Suc 1 < length ?chunks" by simp_all
  from T m p have s: "sorted (fst (schedule_chunks ?chunks 0))" by blast
  note nth = T [THEN conjunct2, THEN conjunct1, rule_format, OF l1, THEN conjunct1]
  note step = T [THEN conjunct2, THEN conjunct2, THEN conjunct1, rule_format, OF l2]
  have v: "fst (schedule_chunks ?chunks 0) = [0, 2, 10]"
    by (simp add: schedule_chunk_def Let_def)
  show ?thesis
    by (intro conjI) (rule l1, rule l2, rule s, rule nth, rule step, rule v)
qed

section \<open>The devices of a configuration\<close>

lemma startsWith_hash: "t \<noteq> [] \<Longrightarrow> startsWith t ''#'' \<longleftrightarrow> hd t = CHR ''#''"
  by (cases t) (simp_all add: startsWith_def)

lemma parse_lines_triples:
  "map (\<lambda>d. (name d, dev_id d, ip d)) (fst (parse_lines rt ls acc k))
     = map (\<lambda>d. (name d, dev_id d, ip d)) acc @ List.map_filter config_line_spec ls"
proof (induction ls arbitrary: acc k)
  case Nil
  show ?case by simp
next
  case (Cons l ls)
  show ?case
  proof (cases "trim l = []")
    case True
    then show ?thesis using Cons.IH by (simp add: config_line_spec_def)
  next
    case False
    then show ?thesis using Cons.IH
      by (simp add: config_line_spec_def startsWith_hash Let_def split_beta
            not_less [symmetric])
  qed
qed

lemma parse_lines_logs_free:
  "devices (parseConfig rt content s) = fst (parse_lines rt (split CHR 0x0A content) [] (tick s))"
  by (simp add: parseConfig_def parseConfig_try_def split_beta Let_def)

text \<open>
  Claim C8. The devices that \<open>parseConfig\<close> puts in the registry are, line by line and in
  order, what \<open>config_line_spec\<close> says: nothing for a blank line, for a comment and for a
  line with fewer than three fields, and otherwise one device with the first field as its
  name, the second as its identifier and the third as its address. No text makes the
  function fail: the body of its \<open>try\<close> ends normally, and the one entry that the call adds
  to the log is the success entry with the number of devices, never the entry of the
  \<open>catch\<close> branch.
\<close>

theorem parseConfig_lines:
  "map (\<lambda>d. (name d, dev_id d, ip d)) (devices (parseConfig rt content s))
     = List.map_filter config_line_spec (split CHR 0x0A content)
 \<and> parseConfig_try rt content s = Inr (parseConfig rt content s)
 \<and> logs (parseConfig rt content s) = logs s @ [last (logs (parseConfig rt content s))]
 \<and> source (last (logs (parseConfig rt content s))) = System
 \<and> entry_type (last (logs (parseConfig rt content s))) = Success
 \<and> message (last (logs (parseConfig rt content s)))
     = ''Configuration loaded. '' @ show_nat (length (devices (parseConfig rt content s)))
         @ '' devices found.''"
proof -
  have "map (\<lambda>d. (name d, dev_id d, ip d)) (devices (parseConfig rt content s))
     = List.map_filter config_line_spec (split CHR 0x0A content)"
    by (simp add: parse_lines_logs_free parse_lines_triples)
  moreover have "parseConfig_try rt content s = Inr (parseConfig rt content s)"
    by (simp add: parseConfig_def parseConfig_try_def split_beta Let_def)
  moreover have "logs (parseConfig rt content s) = logs s @ [last (logs (parseConfig rt content s))]
     \<and> source (last (logs (parseConfig rt content s))) = System
     \<and> entry_type (last (logs (parseConfig rt content s))) = Success
     \<and> message (last (logs (parseConfig rt content s)))
         = ''Configuration loaded. '' @ show_nat (length (devices (parseConfig rt content s)))
             @ '' devices found.''"
    by (simp add: parseConfig_def parseConfig_try_def split_beta Let_def)
  ultimately show ?thesis by blast
qed

theorem parseConfig_lines_witness:
  "map (\<lambda>d. (name d, dev_id d, ip d))
     (devices (parseConfig example_runtime example_config (example_state [])))
     = [(''iphone16p'', ''00000-001C01C'', ''10.139.233.204''),
        (''ipad'', ''00032-000A2B801C'', ''10.139.233.66'')]
 \<and> map (\<lambda>d. (name d, dev_id d, ip d))
     (devices (parseConfig example_runtime example_config_nbsp (example_state [])))
     = [(''ipad'', ''00032'', ''10.0.0.2'')]
 \<and> parseConfig_try example_runtime example_config_nbsp (example_state [])
     = Inr (parseConfig example_runtime example_config_nbsp (example_state []))
 \<and> map (\<lambda>e. (entry_type e, message e))
     (logs (parseConfig example_runtime example_config_nbsp (example_state [])))
     = [(Success, ''Configuration loaded. 1 devices found.'')]"
proof -
  note T = parseConfig_lines [of example_runtime example_config "example_state []"]
  note U = parseConfig_lines [of example_runtime example_config_nbsp "example_state []"]
  have "List.map_filter config_line_spec (split CHR 0x0A example_config)
     = [(''iphone16p'', ''00000-001C01C'', ''10.139.233.204''),
        (''ipad'', ''00032-000A2B801C'', ''10.139.233.66'')]"
    by code_simp
  with T [THEN conjunct1] have a: "map (\<lambda>d. (name d, dev_id d, ip d))
     (devices (parseConfig example_runtime example_config (example_state [])))
     = [(''iphone16p'', ''00000-001C01C'', ''10.139.233.204''),
        (''ipad'', ''00032-000A2B801C'', ''10.139.233.66'')]"
    by (simp only:)
  have "List.map_filter config_line_spec (split CHR 0x0A example_config_nbsp)
     = [(''ipad'', ''00032'', ''10.0.0.2'')]"
    by code_simp
  with U [THEN conjunct1] have b: "map (\<lambda>d. (name d, dev_id d, ip d))
     (devices (parseConfig example_runtime example_config_nbsp (example_state [])))
     = [(''ipad'', ''00032'', ''10.0.0.2'')]"
    by (simp only:)
  note c = U [THEN conjunct2, THEN conjunct1]
  have d: "map (\<lambda>e. (entry_type e, message e))
     (logs (parseConfig example_runtime example_config_nbsp (example_state [])))
     = [(Success, ''Configuration loaded. 1 devices found.'')]"
    by code_simp
  show ?thesis by (intro conjI) (rule a, rule b, rule c, rule d)
qed

section \<open>The log only grows\<close>

lemma logs_resume:
  "prefix (logs s) (logs (snd (handleScriptExecution_resume rt action argument targets names s)))"
proof -
  let ?r = "settle_devices rt targets action argument (devices s) s"
  let ?s4 = "(fst (snd ?r))\<lparr>devices := fst ?r\<rparr>"
  let ?msg = "''Successfully executed '' @ command_value action @ '' on ''
                @ show_nat (length targets) @ '' devices.''"
  have l4: "logs ?s4 = logs s" by simp
  show ?thesis
  proof (cases "updater_at_call rt")
    case True
    have "prefix (logs ?s4) (logs (run_log_calls rt (snd (snd ?r)) ?s4))"
      by (rule logs_run_log_calls)
    also have "prefix \<dots> (logs (addLog rt System ?msg Success (run_log_calls rt (snd (snd ?r)) ?s4)))"
      by simp
    finally show ?thesis using True
      by (simp add: handleScriptExecution_resume_def split_beta Let_def del: logs_addLog)
  next
    case False
    have "prefix (logs ?s4) (logs (addLog rt System ?msg Success ?s4))"
      by simp
    also have "prefix \<dots> (logs (run_log_calls rt (snd (snd ?r)) (addLog rt System ?msg Success ?s4)))"
      by (rule logs_run_log_calls)
    finally show ?thesis using False
      by (simp add: handleScriptExecution_resume_def split_beta Let_def del: logs_addLog)
  qed
qed

lemma logs_handleScriptExecution:
  "prefix (logs s) (logs (snd (handleScriptExecution rt devs action argument tds s)))"
proof (cases "resolve_targets devs tds = []")
  case True
  then show ?thesis
    by (simp add: handleScriptExecution_def handleScriptExecution_begin_def)
next
  case False
  from begin_nonempty [OF False, where rt = rt and action = action and argument = argument and s = s]
  obtain names s2 e where b: "handleScriptExecution_begin rt devs action argument tds s =
             Inr (resolve_targets devs tds, names, s2)"
    and l: "logs s2 = logs s @ [e]"
    by blast
  have "prefix (logs s) (logs s2)" by (simp add: l)
  also have "prefix (logs s2) (logs (snd (handleScriptExecution_resume rt action argument
                 (resolve_targets devs tds) names s2)))"
    by (rule logs_resume)
  finally show ?thesis by (simp add: handleScriptExecution_def b)
qed

lemma logs_handle_tool_calls:
  "prefix (logs s) (logs (snd (handle_tool_calls rt devs fcs s)))"
proof (induction fcs arbitrary: s)
  case Nil
  show ?case by simp
next
  case (Cons fc fcs)
  let ?s1 = "addLog rt AI (''Identified Intent: '' @ fc_name fc) Info s"
  let ?r = "if fc_name fc = ''execute_ios_script'' then
               handleScriptExecution rt devs (arg_action (fc_args fc)) (arg_argument (fc_args fc))
                 (case arg_targetDevices (fc_args fc) of None \<Rightarrow> [''all''] | Some tds \<Rightarrow> tds) ?s1
            else (''Error executing command.'', ?s1)"
  have "prefix (logs s) (logs ?s1)" by simp
  also have "prefix (logs ?s1) (logs (snd ?r))"
    by (simp add: logs_handleScriptExecution del: logs_addLog)
  also have "prefix (logs (snd ?r)) (logs (snd (handle_tool_calls rt devs fcs (snd ?r))))"
    by (rule Cons.IH)
  finally have "prefix (logs s) (logs (snd (handle_tool_calls rt devs fcs (snd ?r))))" .
  moreover have "snd (handle_tool_calls rt devs (fc # fcs) s)
      = snd (handle_tool_calls rt devs fcs (snd ?r))"
    by (cases "fc_name fc = ''execute_ios_script''") (simp_all add: split_beta Let_def)
  ultimately show ?case by (simp only:)
qed

lemma logs_parseConfig:
  "\<exists>e. logs (parseConfig rt content s) = logs s @ [e] \<and> source e = System"
  by (simp add: parseConfig_def parseConfig_try_def split_beta Let_def)

lemma logs_log_lifecycle: "\<exists>e. logs (log_lifecycle rt ev s) = logs s @ [e]"
  by (cases ev) simp_all

lemma logs_run_operation: "prefix (logs s) (logs (run_operation rt op s))"
proof (cases op)
  case (ParseConfig content)
  with logs_parseConfig [of rt content s] show ?thesis by auto
next
  case (Execute devs action argument tds)
  then show ?thesis by (simp add: logs_handleScriptExecution)
next
  case (ToolCalls devs fcs)
  then show ?thesis by (simp add: logs_handle_tool_calls)
next
  case (Lifecycle ev)
  with logs_log_lifecycle [of rt ev s] show ?thesis by auto
qed

lemma logs_run_operations: "prefix (logs s) (logs (run_operations rt ops s))"
proof (induction ops arbitrary: s)
  case Nil
  show ?case by simp
next
  case (Cons op ops)
  have "prefix (logs s) (logs (run_operation rt op s))" by (rule logs_run_operation)
  also have "prefix \<dots> (logs (run_operations rt ops (run_operation rt op s)))" by (rule Cons.IH)
  finally show ?case by simp
qed

text \<open>
  Claim C9. \<open>addLog\<close> puts one entry, with the given source, message and type, at the end
  of the log and keeps the entries before it; a lifecycle event and a parse of the
  configuration add one entry each; and after any run of operations the log before the run
  is a prefix of the log after it.
\<close>

theorem log_append_only:
  "logs (addLog rt src msg ty s) = logs s @ [last (logs (addLog rt src msg ty s))]
 \<and> source (last (logs (addLog rt src msg ty s))) = src
 \<and> message (last (logs (addLog rt src msg ty s))) = msg
 \<and> entry_type (last (logs (addLog rt src msg ty s))) = ty
 \<and> length (logs (log_lifecycle rt ev s)) = Suc (length (logs s))
 \<and> length (logs (parseConfig rt content s)) = Suc (length (logs s))
 \<and> prefix (logs s) (logs (run_operations rt ops s))"
proof -
  from logs_log_lifecycle [of rt ev s] have "length (logs (log_lifecycle rt ev s)) = Suc (length (logs s))"
    by auto
  moreover from logs_parseConfig [of rt content s]
  have "length (logs (parseConfig rt content s)) = Suc (length (logs s))"
    by auto
  ultimately show ?thesis by (simp add: logs_run_operations)
qed

theorem log_append_only_witness:
  "prefix (logs (addLog example_runtime User ''hello'' Info (example_state [])))
     (logs (run_operations example_runtime
        [ParseConfig example_config, Execute [] HOME None [''all''], Lifecycle ConnectionClosed]
        (addLog example_runtime User ''hello'' Info (example_state []))))
 \<and> source (last (logs (addLog example_runtime User ''hello'' Info (example_state [])))) = User
 \<and> message (last (logs (addLog example_runtime User ''hello'' Info (example_state [])))) = ''hello''"
proof -
  note T = log_append_only [of example_runtime User "''hello''" Info "example_state []"
      ConnectionClosed example_config]
  note U = log_append_only [of example_runtime User "''hello''" Info
      "addLog example_runtime User ''hello'' Info (example_state [])" ConnectionClosed example_config
      "[ParseConfig example_config, Execute [] HOME None [''all''], Lifecycle ConnectionClosed]"]
  from T U show ?thesis by blast
qed

section \<open>A tool call without a target list\<close>

text \<open>
  A call of the tool \<open>execute_ios_script\<close> whose \<open>targetDevices\<close> is absent runs the handler
  with the list \<open>[all]\<close>, whose targets are the devices that are not offline in the array
  that the handler reads; a call whose \<open>targetDevices\<close> is the empty array runs it with the
  empty list, which has no target, so the response is the text of the error and the
  registry is unchanged.
\<close>

lemma absent_targets_default_all:
  assumes "fc_name fc = ''execute_ios_script''"
  shows "(arg_targetDevices (fc_args fc) = None \<longrightarrow>
            handle_tool_calls rt devs [fc] s =
              (let r = handleScriptExecution rt devs (arg_action (fc_args fc)) (arg_argument (fc_args fc))
                         [''all''] (addLog rt AI ''Identified Intent: execute_ios_script'' Info s)
               in ([\<lparr>fr_id = fc_id fc, fr_name = ''execute_ios_script'', fr_result = fst r\<rparr>], snd r))
          \<and> resolve_targets devs [''all''] = filter (\<lambda>d. status d \<noteq> Offline) devs)
       \<and> (arg_targetDevices (fc_args fc) = Some [] \<longrightarrow>
            handle_tool_calls rt devs [fc] s =
              (let r = handleScriptExecution rt devs (arg_action (fc_args fc)) (arg_argument (fc_args fc))
                         [] (addLog rt AI ''Identified Intent: execute_ios_script'' Info s)
               in ([\<lparr>fr_id = fc_id fc, fr_name = ''execute_ios_script'', fr_result = fst r\<rparr>], snd r))
          \<and> resolve_targets devs [] = []
          \<and> map fr_result (fst (handle_tool_calls rt devs [fc] s))
               = [''Error: No online devices found for the command.'']
          \<and> devices (snd (handle_tool_calls rt devs [fc] s)) = devices s)"
proof -
  have e: "resolve_targets devs [] = []" by (simp add: resolve_targets_def)
  show ?thesis using assms
    by (auto simp: split_beta Let_def e devices_handleScriptExecution_empty resolve_targets_def
          handleScriptExecution_def handleScriptExecution_begin_def)
qed

text \<open>
  Claim C10 says that a tool call without \<open>targetDevices\<close> is dispatched against every
  device that is not offline. The call does run the handler with \<open>[all]\<close>, but the handler
  is the one of the render in which the session was opened and resolves \<open>all\<close> over the
  registry of that render. A session opened on two connected devices that restarts device
  \<open>B\<close> leaves it offline; when the same session then sends home without \<open>targetDevices\<close>,
  the dispatch reaches both devices, sets \<open>B\<close> connected and names it in its result.
\<close>

theorem absent_targets_reach_offline_device:
  "map status (devices (snd (handle_tool_calls example_runtime
       [example_device ''A'' ''a'' Connected, example_device ''B'' ''b'' Connected]
       [example_call RESTART (Some [''B''])]
       (example_state [example_device ''A'' ''a'' Connected, example_device ''B'' ''b'' Connected]))))
     = [Connected, Offline]
 \<and> map (\<lambda>d. (dev_id d, status d, currentApp d))
       (devices (snd (handle_tool_calls example_runtime
          [example_device ''A'' ''a'' Connected, example_device ''B'' ''b'' Connected]
          [example_call RESTART (Some [''B'']), example_call HOME None]
          (example_state [example_device ''A'' ''a'' Connected, example_device ''B'' ''b'' Connected]))))
     = [(''A'', Connected, Some ''SpringBoard''), (''B'', Connected, Some ''SpringBoard'')]
 \<and> map fr_result (fst (handle_tool_calls example_runtime
          [example_device ''A'' ''a'' Connected, example_device ''B'' ''b'' Connected]
          [example_call RESTART (Some [''B'']), example_call HOME None]
          (example_state [example_device ''A'' ''a'' Connected, example_device ''B'' ''b'' Connected])))
     = [''Command restart executed successfully on b.'',
        ''Command home executed successfully on a, b.'']"
  by code_simp

end
